theory Spec2Isabelle
  imports Main "HOL-Library.Sublist"
begin

section \<open>Data model of \<open>turing_machine.py\<close>\<close>

text \<open>
  Python \<open>str\<close> values are modelled as \<open>string\<close>. A tape symbol, a state name and a
  direction are all \<open>str\<close> in the source, so they are \<open>string\<close> here; an input string
  is iterated character by character, each character being the one-character symbol \<open>[c]\<close>
  (one \<open>char\<close> stands for one character of the Python string). Python \<open>int\<close> is \<open>int\<close>,
  a Python \<open>set\<close> is a \<open>set\<close>, and a \<open>dict\<close> is a map.
\<close>

type_synonym symbol = string
type_synonym state = string

text \<open>
  The exceptions of the source. \<open>InvalidDefinition\<close>, \<open>InvalidSymbol\<close> and
  \<open>InvalidDirection\<close> are the \<open>ValueError\<close>s raised by \<open>TuringMachine.__init__\<close>,
  \<open>TuringMachine.reset\<close> and \<open>Tape.move\<close>/\<open>TransitionFunction.add_transition\<close>;
  \<open>NotInitialized\<close> is the \<open>RuntimeError\<close> of \<open>TuringMachine.step\<close>. Each constructor
  carries what the message of the source is built from: which check of the constructor
  failed, the offending symbol, the offending direction.
\<close>

datatype definition_check =
  InitialStateNotInStates | AcceptStatesNotInStates | InputAlphabetNotInTapeAlphabet
  | BlankSymbolNotInTapeAlphabet

datatype error =
  InvalidDefinition definition_check
  | InvalidSymbol symbol
  | InvalidDirection string
  | NotInitialized

text \<open>
  Every method that mutates its object is a function from the object to the outcome of the
  call (\<open>Inl\<close> the exception raised, \<open>Inr\<close> the value returned) paired with the object as
  the call leaves it, so that what an exception leaves behind is part of the model.
\<close>

type_synonym ('a, 's) outcome = "(error + 'a) \<times> 's"

subsection \<open>class Tape\<close>

text \<open>
  \<open>self.tape\<close> is a \<open>defaultdict\<close> whose factory returns the blank symbol: a map from
  positions to symbols together with the blank. The field \<open>tape\<close> of the source is
  \<open>cells\<close> here and \<open>blank_symbol\<close> is \<open>blank\<close>, because \<open>TuringMachine\<close> has fields
  of the same names; the method \<open>write\<close> is \<open>write_tape\<close>, \<open>write\<close> being a command
  of Isabelle.
\<close>

record Tape =
  blank :: symbol
  cells :: "int \<rightharpoonup> symbol"
  head_position :: int
  leftmost :: int
  rightmost :: int

text \<open>The loop \<open>for i, symbol in enumerate(input_string): self.tape[i] = symbol\<close>.\<close>

fun enumerate_into :: "(int \<rightharpoonup> symbol) \<Rightarrow> int \<Rightarrow> string \<Rightarrow> (int \<rightharpoonup> symbol)" where
  "enumerate_into d i [] = d"
| "enumerate_into d i (c # cs) = enumerate_into (d(i \<mapsto> [c])) (i + 1) cs"

definition Tape_init :: "string \<Rightarrow> symbol \<Rightarrow> Tape" where
  "Tape_init input_string blank_symbol =
     \<lparr> blank = blank_symbol,
       cells = enumerate_into Map.empty 0 input_string,
       head_position = 0,
       leftmost = 0,
       rightmost = (if input_string \<noteq> [] then int (length input_string) - 1 else 0) \<rparr>"

text \<open>
  \<open>self.tape[i]\<close> on the \<open>defaultdict\<close>: a missing key is inserted with the blank symbol
  and the blank symbol is returned.
\<close>

definition getitem :: "Tape \<Rightarrow> int \<Rightarrow> symbol \<times> Tape" where
  "getitem t i =
     (case cells t i of
        Some x \<Rightarrow> (x, t)
      | None \<Rightarrow> (blank t, t\<lparr>cells := (cells t)(i \<mapsto> blank t)\<rparr>))"

definition read :: "Tape \<Rightarrow> symbol \<times> Tape" where
  "read t = getitem t (head_position t)"

definition write_tape :: "Tape \<Rightarrow> symbol \<Rightarrow> Tape" where
  "write_tape t symbol =
     (let t1 = t\<lparr>cells := (cells t)(head_position t \<mapsto> symbol)\<rparr>;
          t2 = t1\<lparr>leftmost := min (leftmost t1) (head_position t1)\<rparr>
      in t2\<lparr>rightmost := max (rightmost t2) (head_position t2)\<rparr>)"

definition move :: "Tape \<Rightarrow> string \<Rightarrow> (unit, Tape) outcome" where
  "move t direction =
     (if direction = ''L'' then
        (let t1 = t\<lparr>head_position := head_position t - 1\<rparr>;
             t2 = t1\<lparr>leftmost := min (leftmost t1) (head_position t1)\<rparr>
         in (Inr (), t2\<lparr>rightmost := max (rightmost t2) (head_position t2)\<rparr>))
      else if direction = ''R'' then
        (let t1 = t\<lparr>head_position := head_position t + 1\<rparr>;
             t2 = t1\<lparr>leftmost := min (leftmost t1) (head_position t1)\<rparr>
         in (Inr (), t2\<lparr>rightmost := max (rightmost t2) (head_position t2)\<rparr>))
      else (Inl (InvalidDirection direction), t))"

text \<open>
  \<open>''.join(self.tape[i] for i in range(start, end + 1))\<close>: the cells are read from left to
  right, each read going through the \<open>defaultdict\<close>.
\<close>

fun join_cells :: "Tape \<Rightarrow> int list \<Rightarrow> string \<times> Tape" where
  "join_cells t [] = ([], t)"
| "join_cells t (i # is) =
     (case getitem t i of (x, t1) \<Rightarrow>
        (case join_cells t1 is of (rest, t2) \<Rightarrow> (x @ rest, t2)))"

definition get_tape_string :: "Tape \<Rightarrow> int \<Rightarrow> string \<times> Tape" where
  "get_tape_string t context =
     (let start = min (leftmost t) (head_position t - context);
          end = max (rightmost t) (head_position t + context)
      in case join_cells t [start..end] of (tape_content, t1) \<Rightarrow>
           (let head_indicator = replicate (nat (head_position t1 - start)) CHR '' '' @ ''^''
            in (''Cinta: '' @ tape_content @ [CHR 0x0A] @ ''       '' @ head_indicator, t1)))"

text \<open>The symbol a read at position \<open>i\<close> yields: the stored one, or the blank.\<close>

definition symbol_at :: "Tape \<Rightarrow> int \<Rightarrow> symbol" where
  "symbol_at t i = (case cells t i of Some x \<Rightarrow> x | None \<Rightarrow> blank t)"

subsection \<open>class TransitionFunction\<close>

type_synonym TransitionFunction = "(state \<times> symbol) \<rightharpoonup> (state \<times> symbol \<times> string)"

definition add_transition ::
  "TransitionFunction \<Rightarrow> state \<Rightarrow> symbol \<Rightarrow> state \<Rightarrow> symbol \<Rightarrow> string
     \<Rightarrow> (unit, TransitionFunction) outcome" where
  "add_transition transitions current_state read_symbol next_state write_symbol direction =
     (if direction \<notin> set [''L'', ''R''] then (Inl (InvalidDirection direction), transitions)
      else (Inr (),
            transitions((current_state, read_symbol) \<mapsto> (next_state, write_symbol, direction))))"

definition get_transition ::
  "TransitionFunction \<Rightarrow> state \<Rightarrow> symbol \<Rightarrow> (state \<times> symbol \<times> string) option" where
  "get_transition transitions state symbol = transitions (state, symbol)"

definition has_transition :: "TransitionFunction \<Rightarrow> state \<Rightarrow> symbol \<Rightarrow> bool" where
  "has_transition transitions state symbol = (transitions (state, symbol) \<noteq> None)"

subsection \<open>class TuringMachine\<close>

record TuringMachine =
  states :: "state set"
  input_alphabet :: "symbol set"
  tape_alphabet :: "symbol set"
  transition_function :: TransitionFunction
  initial_state :: state
  blank_symbol :: symbol
  accept_states :: "state set"
  current_state :: state
  tape :: "Tape option"
  step_count :: int
  execution_history :: "(state \<times> int \<times> string) list"

definition TuringMachine_init ::
  "state set \<Rightarrow> symbol set \<Rightarrow> symbol set \<Rightarrow> TransitionFunction \<Rightarrow> state \<Rightarrow> symbol
     \<Rightarrow> state set \<Rightarrow> error + TuringMachine" where
  "TuringMachine_init sts input_alph tape_alph tf initial blank_sym accept =
     (if initial \<notin> sts then Inl (InvalidDefinition InitialStateNotInStates)
      else if \<not> accept \<subseteq> sts then Inl (InvalidDefinition AcceptStatesNotInStates)
      else if \<not> input_alph \<subseteq> tape_alph then
        Inl (InvalidDefinition InputAlphabetNotInTapeAlphabet)
      else if blank_sym \<notin> tape_alph then Inl (InvalidDefinition BlankSymbolNotInTapeAlphabet)
      else Inr \<lparr> states = sts,
                 input_alphabet = input_alph,
                 tape_alphabet = tape_alph,
                 transition_function = tf,
                 initial_state = initial,
                 blank_symbol = blank_sym,
                 accept_states = accept,
                 current_state = initial,
                 tape = None,
                 step_count = 0,
                 execution_history = [] \<rparr>)"

text \<open>
  \<open>_save_configuration\<close>. A \<open>Tape\<close> object is truthy (the class defines neither
  \<open>__bool__\<close> nor \<open>__len__\<close>), so \<open>if self.tape\<close> fails for \<open>None\<close> only. The tuple is built
  left to right: state, head position, then \<open>get_tape_string()\<close> with its default
  \<open>context = 10\<close>.
\<close>

definition save_configuration :: "TuringMachine \<Rightarrow> TuringMachine" where
  "save_configuration m =
     (case tape m of
        None \<Rightarrow> m
      | Some t \<Rightarrow>
          (case get_tape_string t 10 of (s, t1) \<Rightarrow>
             m\<lparr>tape := Some t1,
               execution_history :=
                 execution_history m @ [(current_state m, head_position t, s)]\<rparr>))"

text \<open>The validation loop of \<open>reset\<close>: the first symbol outside the input alphabet.\<close>

fun check_input :: "symbol set \<Rightarrow> string \<Rightarrow> symbol option" where
  "check_input alphabet [] = None"
| "check_input alphabet (c # cs) =
     (if [c] \<notin> alphabet then Some [c] else check_input alphabet cs)"

definition reset :: "TuringMachine \<Rightarrow> string \<Rightarrow> (unit, TuringMachine) outcome" where
  "reset m input_string =
     (case check_input (input_alphabet m) input_string of
        Some symbol \<Rightarrow> (Inl (InvalidSymbol symbol), m)
      | None \<Rightarrow>
          (Inr (),
           save_configuration
             (m\<lparr>tape := Some (Tape_init input_string (blank_symbol m)),
                current_state := initial_state m,
                step_count := 0,
                execution_history := []\<rparr>)))"

definition step :: "TuringMachine \<Rightarrow> (bool, TuringMachine) outcome" where
  "step m =
     (case tape m of
        None \<Rightarrow> (Inl NotInitialized, m)
      | Some t \<Rightarrow>
          if current_state m \<in> accept_states m then (Inr False, m)
          else
            (case read t of (current_symbol, t1) \<Rightarrow>
               (case get_transition (transition_function m) (current_state m) current_symbol of
                  None \<Rightarrow> (Inr False, m\<lparr>tape := Some t1\<rparr>)
                | Some (next_state, write_symbol, direction) \<Rightarrow>
                    (case move (write_tape t1 write_symbol) direction of
                       (Inl e, t2) \<Rightarrow> (Inl e, m\<lparr>tape := Some t2\<rparr>)
                     | (Inr u, t2) \<Rightarrow>
                         (Inr True,
                          save_configuration
                            (m\<lparr>tape := Some t2,
                               current_state := next_state,
                               step_count := step_count m + 1\<rparr>))))))"

text \<open>\<open>get_result\<close> reads the machine and raises nothing.\<close>

definition get_result :: "TuringMachine \<Rightarrow> error + string" where
  "get_result m =
     (if current_state m \<in> accept_states m then Inr ''Acepta'' else Inr ''Rechaza'')"

text \<open>
  \<open>run\<close> with \<open>step_by_step = False\<close>. The calls of \<open>print\<close> write to the console and touch
  nothing of the machine, so they are left out. The \<open>while\<close> loop is \<open>run_loop\<close>: it calls
  \<open>step\<close> while the step counter is below \<open>max_steps\<close> and leaves at the first call that
  returns \<open>False\<close>; an exception of \<open>step\<close> ends the run. Every pass that goes on has raised
  the step counter by one, which is why the loop terminates.
\<close>

function run_loop :: "TuringMachine \<Rightarrow> int \<Rightarrow> (unit, TuringMachine) outcome" where
  "run_loop m max_steps =
     (if step_count m < max_steps then
        (case step m of
           (Inl e, m1) \<Rightarrow> (Inl e, m1)
         | (Inr can_continue, m1) \<Rightarrow>
             if \<not> can_continue then (Inr (), m1) else run_loop m1 max_steps)
      else (Inr (), m))"
  by pat_completeness auto
termination
proof (relation "measure (\<lambda>(m, max_steps). nat (max_steps - step_count m))")
  show "wf (measure (\<lambda>(m, max_steps). nat (max_steps - step_count m)))"
    by simp
next
  fix m :: TuringMachine and max_steps :: int and x y xa
  assume "step_count m < max_steps" and "(x, y) = step m" and "x = Inr xa" and "\<not> \<not> xa"
  then have "step m = (Inr True, y)"
    by simp
  then have "step_count y = step_count m + 1"
    by (auto simp: step_def save_configuration_def
        split: option.splits if_splits prod.splits sum.splits)
  with \<open>step_count m < max_steps\<close>
  show "((y, max_steps), (m, max_steps))
          \<in> measure (\<lambda>(m, max_steps). nat (max_steps - step_count m))"
    by simp
qed

declare run_loop.simps [simp del]

definition run :: "TuringMachine \<Rightarrow> string \<Rightarrow> int \<Rightarrow> (unit, TuringMachine) outcome" where
  "run m input_string max_steps =
     (case reset m input_string of
        (Inl e, m1) \<Rightarrow> (Inl e, m1)
      | (Inr u, m1) \<Rightarrow> run_loop m1 max_steps)"

subsection \<open>Notions used by the properties\<close>

text \<open>The positions \<open>get_tape_string\<close> reads: \<open>range(start, end + 1)\<close>.\<close>

definition window :: "Tape \<Rightarrow> int \<Rightarrow> int list" where
  "window t context =
     [min (leftmost t) (head_position t - context)..max (rightmost t) (head_position t + context)]"

text \<open>The head lies within the recorded bounds.\<close>

definition bounds_ok :: "Tape \<Rightarrow> bool" where
  "bounds_ok t = (leftmost t \<le> head_position t \<and> head_position t \<le> rightmost t)"

text \<open>The machine after \<open>k\<close> further calls of \<open>step\<close>, whatever each call returned.\<close>

fun steps :: "nat \<Rightarrow> TuringMachine \<Rightarrow> TuringMachine" where
  "steps 0 m = m"
| "steps (Suc k) m = steps k (snd (step m))"

text \<open>
  The cell under the head is a key of the \<open>defaultdict\<close>, so that reading it inserts
  nothing.
\<close>

definition head_stored :: "TuringMachine \<Rightarrow> bool" where
  "head_stored m =
     (case tape m of None \<Rightarrow> False | Some t \<Rightarrow> cells t (head_position t) \<noteq> None)"

subsection \<open>A concrete machine\<close>

text \<open>
  A machine with two states on which the properties are exercised: it runs to the right,
  marking each \<open>0\<close> as \<open>X\<close>, steps back at the first blank and accepts; it has no
  transition for \<open>1\<close>, and
  its accept state has a transition of its own. \<open>demo\<close> is the machine as the constructor
  leaves it, before any \<open>reset\<close>.
\<close>

definition demo_transitions :: TransitionFunction where
  "demo_transitions =
     [(''q0'', ''0'') \<mapsto> (''q0'', ''X'', ''R''),
      (''q0'', ''_'') \<mapsto> (''qa'', ''_'', ''L''),
      (''qa'', ''X'') \<mapsto> (''q0'', ''X'', ''R'')]"

definition demo :: TuringMachine where
  "demo =
     \<lparr> states = {''q0'', ''qa''},
       input_alphabet = {''0'', ''1''},
       tape_alphabet = {''0'', ''1'', ''X'', ''_''},
       transition_function = demo_transitions,
       initial_state = ''q0'',
       blank_symbol = ''_'',
       accept_states = {''qa''},
       current_state = ''q0'',
       tape = None,
       step_count = 0,
       execution_history = [] \<rparr>"

section \<open>Properties\<close>

subsection \<open>The defaultdict\<close>

lemma getitem_fst: "fst (getitem t i) = symbol_at t i"
  by (simp add: getitem_def symbol_at_def split: option.splits)

lemma getitem_frame:
  "blank (snd (getitem t i)) = blank t"
  "head_position (snd (getitem t i)) = head_position t"
  "leftmost (snd (getitem t i)) = leftmost t"
  "rightmost (snd (getitem t i)) = rightmost t"
  by (simp_all add: getitem_def split: option.splits)

lemma getitem_symbol_at: "symbol_at (snd (getitem t i)) j = symbol_at t j"
  by (simp add: getitem_def symbol_at_def split: option.splits)

lemma getitem_dom: "dom (cells (snd (getitem t i))) = insert i (dom (cells t))"
  by (auto simp: getitem_def split: option.splits)

lemma getitem_present: "i \<in> dom (cells t) \<Longrightarrow> snd (getitem t i) = t"
  by (auto simp: getitem_def split: option.splits)

lemma join_cells_fst: "fst (join_cells t is) = concat (map (symbol_at t) is)"
proof (induction "is" arbitrary: t)
  case Nil
  show ?case by simp
next
  case (Cons i "is")
  have "fst (join_cells t (i # is)) = fst (getitem t i) @ fst (join_cells (snd (getitem t i)) is)"
    by (simp split: prod.splits)
  also have "\<dots> = symbol_at t i @ concat (map (symbol_at (snd (getitem t i))) is)"
    by (simp add: getitem_fst Cons.IH)
  also have "symbol_at (snd (getitem t i)) = symbol_at t"
    by (rule ext) (rule getitem_symbol_at)
  finally show ?case
    by simp
qed

lemma join_cells_snd_Cons:
  "snd (join_cells t (i # is)) = snd (join_cells (snd (getitem t i)) is)"
  by (simp split: prod.splits)

lemma join_cells_frame:
  "blank (snd (join_cells t is)) = blank t"
  "head_position (snd (join_cells t is)) = head_position t"
  "leftmost (snd (join_cells t is)) = leftmost t"
  "rightmost (snd (join_cells t is)) = rightmost t"
  by (induction "is" arbitrary: t; simp add: join_cells_snd_Cons getitem_frame del: join_cells.simps(2))+

lemma join_cells_symbol_at: "symbol_at (snd (join_cells t is)) j = symbol_at t j"
  by (induction "is" arbitrary: t) (simp_all add: join_cells_snd_Cons getitem_symbol_at del: join_cells.simps(2))

lemma join_cells_dom: "dom (cells (snd (join_cells t is))) = dom (cells t) \<union> set is"
  by (induction "is" arbitrary: t) (simp_all add: join_cells_snd_Cons getitem_dom del: join_cells.simps(2))

lemma join_cells_present: "set is \<subseteq> dom (cells t) \<Longrightarrow> snd (join_cells t is) = t"
  by (induction "is" arbitrary: t) (simp_all add: join_cells_snd_Cons getitem_present del: join_cells.simps(2))

subsection \<open>Rendering\<close>

lemma get_tape_string_snd: "snd (get_tape_string t c) = snd (join_cells t (window t c))"
  by (simp add: get_tape_string_def window_def Let_def split: prod.splits)

lemma get_tape_string_fst:
  "fst (get_tape_string t c) =
     ''Cinta: '' @ concat (map (symbol_at t) (window t c)) @ [CHR 0x0A] @ ''       ''
       @ replicate (nat (head_position t - min (leftmost t) (head_position t - c))) CHR '' '' @ ''^''"
proof -
  obtain content t1 where j: "join_cells t (window t c) = (content, t1)"
    by (cases "join_cells t (window t c)")
  have "content = concat (map (symbol_at t) (window t c))"
    using join_cells_fst [of t "window t c"] j by simp
  moreover have "head_position t1 = head_position t"
    using join_cells_frame(2) [of t "window t c"] j by simp
  ultimately show ?thesis
    using j by (simp add: get_tape_string_def window_def Let_def)
qed

lemma get_tape_string_frame:
  "blank (snd (get_tape_string t c)) = blank t"
  "head_position (snd (get_tape_string t c)) = head_position t"
  "leftmost (snd (get_tape_string t c)) = leftmost t"
  "rightmost (snd (get_tape_string t c)) = rightmost t"
  by (simp_all add: get_tape_string_snd join_cells_frame)

lemma get_tape_string_symbol_at: "symbol_at (snd (get_tape_string t c)) j = symbol_at t j"
  by (simp add: get_tape_string_snd join_cells_symbol_at)

lemma get_tape_string_dom:
  "dom (cells (snd (get_tape_string t c))) = dom (cells t) \<union> set (window t c)"
  by (simp add: get_tape_string_snd join_cells_dom)

lemma head_in_window: "0 \<le> c \<Longrightarrow> head_position t \<in> set (window t c)"
  by (auto simp: window_def)

lemma get_tape_string_again:
  "fst (get_tape_string (snd (get_tape_string t c)) c) = fst (get_tape_string t c)"
proof -
  have "window (snd (get_tape_string t c)) c = window t c"
    by (simp add: window_def get_tape_string_frame)
  moreover have "symbol_at (snd (get_tape_string t c)) = symbol_at t"
    by (rule ext) (rule get_tape_string_symbol_at)
  ultimately show ?thesis
    by (simp add: get_tape_string_fst [of "snd (get_tape_string t c)"] get_tape_string_fst [of t]
        get_tape_string_frame)
qed

subsection \<open>Tape operations\<close>

lemma read_fst: "fst (read t) = symbol_at t (head_position t)"
  by (simp add: read_def getitem_fst)

lemma read_frame:
  "blank (snd (read t)) = blank t"
  "head_position (snd (read t)) = head_position t"
  "leftmost (snd (read t)) = leftmost t"
  "rightmost (snd (read t)) = rightmost t"
  by (simp_all add: read_def getitem_frame)

lemma read_symbol_at: "symbol_at (snd (read t)) j = symbol_at t j"
  by (simp add: read_def getitem_symbol_at)

lemma read_dom: "dom (cells (snd (read t))) = insert (head_position t) (dom (cells t))"
  by (simp add: read_def getitem_dom)

lemma read_present: "head_position t \<in> dom (cells t) \<Longrightarrow> snd (read t) = t"
  by (simp add: read_def getitem_present)

lemma write_tape_frame:
  "blank (write_tape t w) = blank t"
  "head_position (write_tape t w) = head_position t"
  "leftmost (write_tape t w) = min (leftmost t) (head_position t)"
  "rightmost (write_tape t w) = max (rightmost t) (head_position t)"
  by (simp_all add: write_tape_def Let_def)

lemma write_tape_symbol_at:
  "symbol_at (write_tape t w) j = (if j = head_position t then w else symbol_at t j)"
  by (simp add: write_tape_def Let_def symbol_at_def split: option.splits)

lemma write_tape_dom: "dom (cells (write_tape t w)) = insert (head_position t) (dom (cells t))"
  by (simp add: write_tape_def Let_def)

lemma move_fst:
  "fst (move t d) = (if d = ''L'' \<or> d = ''R'' then Inr () else Inl (InvalidDirection d))"
  by (simp add: move_def Let_def)

lemma move_invalid: "d \<noteq> ''L'' \<Longrightarrow> d \<noteq> ''R'' \<Longrightarrow> move t d = (Inl (InvalidDirection d), t)"
  by (simp add: move_def)

lemma move_frame:
  "blank (snd (move t d)) = blank t"
  "cells (snd (move t d)) = cells t"
  "head_position (snd (move t d)) =
     (if d = ''L'' then head_position t - 1 else if d = ''R'' then head_position t + 1
      else head_position t)"
  "leftmost (snd (move t d)) =
     (if d = ''L'' then min (leftmost t) (head_position t - 1)
      else if d = ''R'' then min (leftmost t) (head_position t + 1) else leftmost t)"
  "rightmost (snd (move t d)) =
     (if d = ''L'' then max (rightmost t) (head_position t - 1)
      else if d = ''R'' then max (rightmost t) (head_position t + 1) else rightmost t)"
  by (simp_all add: move_def Let_def)

lemma move_symbol_at: "symbol_at (snd (move t d)) j = symbol_at t j"
  by (simp add: symbol_at_def move_frame split: option.splits)

lemma enumerate_into_apply:
  "enumerate_into d k s i =
     (if k \<le> i \<and> i < k + int (length s) then Some [s ! nat (i - k)] else d i)"
proof (induction s arbitrary: d k)
  case Nil
  show ?case by auto
next
  case (Cons c cs)
  have "enumerate_into d k (c # cs) i = enumerate_into (d(k \<mapsto> [c])) (k + 1) cs i"
    by simp
  also have "\<dots> =
      (if k + 1 \<le> i \<and> i < k + 1 + int (length cs) then Some [cs ! nat (i - (k + 1))]
       else (d(k \<mapsto> [c])) i)"
    by (rule Cons.IH)
  also have "\<dots> =
      (if k \<le> i \<and> i < k + int (length (c # cs)) then Some [(c # cs) ! nat (i - k)] else d i)"
  proof -
    have "k + 1 \<le> i \<Longrightarrow> nat (i - k) = Suc (nat (i - (k + 1)))"
      by simp
    then show ?thesis
      by auto
  qed
  finally show ?case .
qed

lemma Tape_init_frame:
  "blank (Tape_init s b) = b"
  "head_position (Tape_init s b) = 0"
  "leftmost (Tape_init s b) = 0"
  "rightmost (Tape_init s b) = max 0 (int (length s) - 1)"
  by (simp_all add: Tape_init_def)

lemma Tape_init_symbol_at:
  "symbol_at (Tape_init s b) i = (if 0 \<le> i \<and> i < int (length s) then [s ! nat i] else b)"
  by (simp add: symbol_at_def Tape_init_def enumerate_into_apply)

subsection \<open>Machine operations\<close>

lemma save_configuration_Some:
  "tape m = Some t \<Longrightarrow>
   save_configuration m =
     m\<lparr>tape := Some (snd (get_tape_string t 10)),
       execution_history :=
         execution_history m @ [(current_state m, head_position t, fst (get_tape_string t 10))]\<rparr>"
  by (simp add: save_configuration_def split: prod.splits)

lemma check_input_None: "check_input A s = None \<longleftrightarrow> (\<forall>c\<in>set s. [c] \<in> A)"
  by (induction s) auto

lemma check_input_Some: "check_input A s = Some x \<Longrightarrow> \<exists>c\<in>set s. x = [c] \<and> [c] \<notin> A"
  by (induction s) (auto split: if_splits)

lemma reset_success:
  "check_input (input_alphabet m) s = None \<Longrightarrow>
   reset m s =
     (Inr (),
      m\<lparr>tape := Some (snd (get_tape_string (Tape_init s (blank_symbol m)) 10)),
        current_state := initial_state m,
        step_count := 0,
        execution_history :=
          [(initial_state m, 0, fst (get_tape_string (Tape_init s (blank_symbol m)) 10))]\<rparr>)"
  by (simp add: reset_def save_configuration_Some Tape_init_frame)

lemma reset_failure:
  "check_input (input_alphabet m) s = Some x \<Longrightarrow> reset m s = (Inl (InvalidSymbol x), m)"
  by (simp add: reset_def)

lemma step_unfold:
  "step m =
     (case tape m of
        None \<Rightarrow> (Inl NotInitialized, m)
      | Some t \<Rightarrow>
          if current_state m \<in> accept_states m then (Inr False, m)
          else
            (case get_transition (transition_function m) (current_state m)
                    (symbol_at t (head_position t)) of
               None \<Rightarrow> (Inr False, m\<lparr>tape := Some (snd (read t))\<rparr>)
             | Some (q, w, d) \<Rightarrow>
                 if d = ''L'' \<or> d = ''R'' then
                   (Inr True,
                    m\<lparr>tape := Some (snd (get_tape_string (snd (move (write_tape (snd (read t)) w) d)) 10)),
                      current_state := q,
                      step_count := step_count m + 1,
                      execution_history :=
                        execution_history m
                          @ [(q, head_position (snd (move (write_tape (snd (read t)) w) d)),
                              fst (get_tape_string (snd (move (write_tape (snd (read t)) w) d)) 10))]\<rparr>)
                 else
                   (Inl (InvalidDirection d), m\<lparr>tape := Some (write_tape (snd (read t)) w)\<rparr>)))"
  by (simp add: step_def case_prod_beta read_fst move_fst move_invalid save_configuration_Some
      split: option.splits sum.splits)

subsection \<open>Evaluation on concrete machines\<close>

lemmas tape_eval =
  get_tape_string_frame get_tape_string_symbol_at read_frame read_symbol_at
  write_tape_frame write_tape_symbol_at move_frame move_symbol_at
  Tape_init_frame Tape_init_symbol_at

lemmas demo_eval = demo_def demo_transitions_def get_transition_def

lemmas run_eval = eval_nat_numeral reset_success step_unfold

subsection \<open>Sequences of steps\<close>

lemma steps_Suc_right: "steps (Suc k) m = snd (step (steps k m))"
  by (induction k arbitrary: m) simp_all

lemma steps_add: "steps (j + k) m = steps k (steps j m)"
  by (induction j arbitrary: m) simp_all

lemma reset_Inr: "reset m0 s = (Inr (), m) \<Longrightarrow> check_input (input_alphabet m0) s = None"
  by (simp add: reset_def split: option.splits)

lemma step_progress:
  "fst (step m) = Inr True \<Longrightarrow>
   current_state m \<notin> accept_states m \<and> step_count (snd (step m)) = step_count m + 1"
  by (auto simp: step_unfold split: option.splits if_splits prod.splits)

lemma step_history:
  "\<exists>es. execution_history (snd (step m)) = execution_history m @ es
        \<and> int (length es) = step_count (snd (step m)) - step_count m"
  by (simp add: step_unfold split: option.splits prod.splits)

lemma steps_history:
  "\<exists>es. execution_history (steps k m) = execution_history m @ es
        \<and> int (length es) = step_count (steps k m) - step_count m"
proof (induction k arbitrary: m)
  case 0
  show ?case by simp
next
  case (Suc k)
  obtain es where es: "execution_history (snd (step m)) = execution_history m @ es"
    "int (length es) = step_count (snd (step m)) - step_count m"
    using step_history [of m] by blast
  obtain es' where es': "execution_history (steps k (snd (step m)))
       = execution_history (snd (step m)) @ es'"
    "int (length es') = step_count (steps k (snd (step m))) - step_count (snd (step m))"
    using Suc.IH [of "snd (step m)"] by blast
  have "execution_history (steps (Suc k) m) = execution_history m @ (es @ es')"
    using es(1) es'(1) by simp
  moreover have "int (length (es @ es')) = step_count (steps (Suc k) m) - step_count m"
    using es(2) es'(2) by simp
  ultimately show ?case by blast
qed

subsection \<open>The cell under the head\<close>

lemma get_tape_string_head_stored:
  "0 \<le> c \<Longrightarrow> cells (snd (get_tape_string t c)) (head_position t) \<noteq> None"
proof -
  assume "0 \<le> c"
  then have "head_position t \<in> dom (cells (snd (get_tape_string t c)))"
    by (simp add: get_tape_string_dom head_in_window)
  then show ?thesis
    by (simp add: domIff)
qed

lemma head_stored_reset: "reset m0 s = (Inr (), m) \<Longrightarrow> head_stored m"
proof -
  assume r: "reset m0 s = (Inr (), m)"
  have "cells (snd (get_tape_string (Tape_init s (blank_symbol m0)) 10))
          (head_position (Tape_init s (blank_symbol m0))) \<noteq> None"
    by (rule get_tape_string_head_stored) simp
  then show ?thesis
    using r reset_success [OF reset_Inr [OF r]]
    by (auto simp: head_stored_def get_tape_string_frame)
qed

lemma read_stored: "cells t (head_position t) \<noteq> None \<Longrightarrow> snd (read t) = t"
  by (rule read_present) (simp add: domIff)

lemma head_stored_step: "head_stored m \<Longrightarrow> head_stored (snd (step m))"
proof (cases "tape m")
  case None
  assume "head_stored m"
  with None show ?thesis by (simp add: head_stored_def)
next
  case (Some t)
  assume "head_stored m"
  with Some have st: "cells t (head_position t) \<noteq> None"
    by (simp add: head_stored_def)
  have rd: "snd (read t) = t"
    using st by (rule read_stored)
  have wr: "cells (write_tape t w) (head_position t) \<noteq> None" for w
    by (simp add: write_tape_def Let_def)
  have gs: "cells (snd (get_tape_string (snd (move (write_tape t w) d)) 10))
      (head_position (snd (move (write_tape t w) d))) \<noteq> None" for w d
    by (rule get_tape_string_head_stored) simp
  show ?thesis
    using Some st wr gs
    by (auto simp: step_unfold head_stored_def rd get_tape_string_frame write_tape_frame
        split: option.splits prod.splits)
qed

lemma head_stored_steps: "head_stored m \<Longrightarrow> head_stored (steps k m)"
  by (induction k arbitrary: m) (simp_all add: head_stored_step)

subsection \<open>The loop of run\<close>

lemma run_loop_done: "\<not> step_count m < N \<Longrightarrow> run_loop m N = (Inr (), m)"
  by (subst run_loop.simps) simp

lemma steps_count:
  "(\<forall>k<n. fst (step (steps k m)) = Inr True) \<Longrightarrow> step_count (steps n m) = step_count m + int n"
proof (induction n)
  case 0
  show ?case by simp
next
  case (Suc n)
  then have "step_count (steps n m) = step_count m + int n"
    by simp
  moreover have "fst (step (steps n m)) = Inr True"
    using Suc.prems by simp
  ultimately show ?case
    using step_progress [of "steps n m"] unfolding steps_Suc_right by simp
qed

lemma run_loop_progress:
  "(\<forall>k<n. fst (step (steps k m)) = Inr True) \<Longrightarrow> step_count m + int n \<le> N \<Longrightarrow>
   run_loop m N = run_loop (steps n m) N"
proof (induction n arbitrary: m)
  case 0
  show ?case by simp
next
  case (Suc n)
  have p: "fst (step m) = Inr True"
    using Suc.prems(1) [rule_format, of 0] by simp
  then obtain m1 where s: "step m = (Inr True, m1)"
    by (cases "step m") simp
  then have m1: "snd (step m) = m1"
    by simp
  have c: "step_count m1 = step_count m + 1"
    using step_progress [OF p] m1 by simp
  have "fst (step (steps k m1)) = Inr True" if "k < n" for k
    using Suc.prems(1) [rule_format, of "Suc k"] that m1 by simp
  then have "\<forall>k<n. fst (step (steps k m1)) = Inr True"
    by blast
  moreover have "step_count m1 + int n \<le> N"
    using c Suc.prems(2) by simp
  ultimately have "run_loop m1 N = run_loop (steps n m1) N"
    by (rule Suc.IH)
  moreover have "run_loop m N = run_loop m1 N"
  proof -
    have "step_count m < N"
      using Suc.prems(2) by simp
    then show ?thesis
      using s by (subst run_loop.simps) simp
  qed
  ultimately show ?case
    using m1 by simp
qed

subsection \<open>The transition table\<close>

text \<open>A table filled through \<open>add_transition\<close> holds the directions \<open>L\<close> and \<open>R\<close> only.\<close>

lemma add_transition_directions:
  assumes "add_transition tf p a q w d = (Inr (), tf')"
    and "\<forall>k q' w' d'. tf k = Some (q', w', d') \<longrightarrow> d' = ''L'' \<or> d' = ''R''"
  shows "\<forall>k q' w' d'. tf' k = Some (q', w', d') \<longrightarrow> d' = ''L'' \<or> d' = ''R''"
proof (intro allI impI)
  fix k q' w' d'
  assume h: "tf' k = Some (q', w', d')"
  from assms(1) have d: "d = ''L'' \<or> d = ''R''" and tf': "tf' = tf((p, a) \<mapsto> (q, w, d))"
    by (auto simp: add_transition_def split: if_splits)
  show "d' = ''L'' \<or> d' = ''R''"
  proof (cases "k = (p, a)")
    case True
    with h tf' d show ?thesis by auto
  next
    case False
    with h tf' have "tf k = Some (q', w', d')"
      by simp
    then show ?thesis
      using assms(2) by blast
  qed
qed

section \<open>The claims\<close>

text \<open>
  C1 (acceptance priority). On a machine that has a tape, whenever the current state is an
  accept state, \<open>step\<close> returns \<open>False\<close> and leaves the whole machine as it was: current
  state, tape, step counter and history. The transition table is not looked at, so a
  transition defined for the accept state and the symbol under the head does not fire; the
  machine of the witness, \<open>demo\<close> after \<open>reset('0')\<close> and two steps, has one.
\<close>

theorem acceptance_priority:
  assumes "tape m \<noteq> None" and "current_state m \<in> accept_states m"
  shows "step m = (Inr False, m)"
  using assms by (auto simp: step_def)

theorem acceptance_priority_witness:
  "tape (steps 2 (snd (reset demo ''0''))) \<noteq> None
   \<and> current_state (steps 2 (snd (reset demo ''0'')))
       \<in> accept_states (steps 2 (snd (reset demo ''0'')))
   \<and> has_transition (transition_function (steps 2 (snd (reset demo ''0''))))
         (current_state (steps 2 (snd (reset demo ''0''))))
         (fst (read (the (tape (steps 2 (snd (reset demo ''0'')))))))
   \<and> step (steps 2 (snd (reset demo ''0''))) = (Inr False, steps 2 (snd (reset demo ''0'')))"
proof -
  have h1: "tape (steps 2 (snd (reset demo ''0''))) \<noteq> None"
    by (simp add: run_eval tape_eval demo_eval)
  have h2: "current_state (steps 2 (snd (reset demo ''0'')))
       \<in> accept_states (steps 2 (snd (reset demo ''0'')))"
    by (simp add: run_eval tape_eval demo_eval)
  have h3: "has_transition (transition_function (steps 2 (snd (reset demo ''0''))))
         (current_state (steps 2 (snd (reset demo ''0''))))
         (fst (read (the (tape (steps 2 (snd (reset demo ''0'')))))))"
    by (simp add: run_eval tape_eval demo_eval read_fst has_transition_def)
  show ?thesis
    using acceptance_priority [OF h1 h2] h1 h2 h3 by simp
qed

text \<open>
  C2 (max-steps enforcement and classification). Let \<open>reset(s)\<close> succeed and let each of
  the calls of \<open>step\<close> number \<open>0\<close> to \<open>N\<close> of the run report progress, which is the case
  for every \<open>N\<close> when the run never reaches a halting configuration. Then
  \<open>run(s, max_steps = N)\<close> returns normally and leaves the machine that exactly \<open>N\<close>
  calls of \<open>step\<close> leave after the reset, the step counter is \<open>N\<close>, and \<open>get_result\<close> is
  \<open>Rechaza\<close>, the classification the specification calls rejected. After any run
  whatever, \<open>get_result\<close> is \<open>Acepta\<close> (accepted) if and only if the current state is an
  accept state, and \<open>Rechaza\<close> otherwise. \<open>N\<close> counts calls, so \<open>0 \<le> N\<close>.
\<close>

theorem max_steps_enforcement:
  assumes "0 \<le> N" and "reset m0 s = (Inr (), m)"
    and "\<forall>k\<le>nat N. fst (step (steps k m)) = Inr True"
  shows "run m0 s N = (Inr (), steps (nat N) m)
     \<and> step_count (steps (nat N) m) = N
     \<and> get_result (steps (nat N) m) = Inr ''Rechaza''
     \<and> get_result (snd (run m1 s1 N1)) =
         Inr (if current_state (snd (run m1 s1 N1)) \<in> accept_states (snd (run m1 s1 N1))
              then ''Acepta'' else ''Rechaza'')"
proof -
  have c0: "step_count m = 0"
    using assms(2) reset_success [OF reset_Inr [OF assms(2)]] by auto
  have p: "\<forall>k<nat N. fst (step (steps k m)) = Inr True"
    using assms(3) by simp
  have cN: "step_count (steps (nat N) m) = N"
    using steps_count [OF p] c0 assms(1) by simp
  have "run_loop m N = run_loop (steps (nat N) m) N"
    using p by (rule run_loop_progress) (simp add: c0 assms(1))
  also have "\<dots> = (Inr (), steps (nat N) m)"
    by (rule run_loop_done) (simp add: cN)
  finally have "run m0 s N = (Inr (), steps (nat N) m)"
    by (simp add: run_def assms(2))
  moreover have "current_state (steps (nat N) m) \<notin> accept_states (steps (nat N) m)"
    using assms(3) step_progress [of "steps (nat N) m"] by simp
  then have "get_result (steps (nat N) m) = Inr ''Rechaza''"
    by (simp add: get_result_def)
  ultimately show ?thesis
    using cN by (simp add: get_result_def)
qed

theorem max_steps_enforcement_witness:
  "(0::int) \<le> 2
   \<and> reset demo ''00'' = (Inr (), snd (reset demo ''00''))
   \<and> fst (step (steps 0 (snd (reset demo ''00'')))) = Inr True
   \<and> fst (step (steps 1 (snd (reset demo ''00'')))) = Inr True
   \<and> fst (step (steps 2 (snd (reset demo ''00'')))) = Inr True
   \<and> run demo ''00'' 2 = (Inr (), steps 2 (snd (reset demo ''00'')))
   \<and> step_count (snd (run demo ''00'' 2)) = 2
   \<and> get_result (snd (run demo ''00'' 2)) = Inr ''Rechaza''"
proof -
  have h1: "(0::int) \<le> 2"
    by simp
  have h2: "reset demo ''00'' = (Inr (), snd (reset demo ''00''))"
    by (simp add: reset_success demo_def)
  have k0: "fst (step (steps 0 (snd (reset demo ''00'')))) = Inr True"
    by (simp add: run_eval tape_eval demo_eval)
  have k1: "fst (step (steps 1 (snd (reset demo ''00'')))) = Inr True"
    by (simp add: run_eval tape_eval demo_eval)
  have k2: "fst (step (steps 2 (snd (reset demo ''00'')))) = Inr True"
    by (simp add: run_eval tape_eval demo_eval)
  have h3: "\<forall>k\<le>nat 2. fst (step (steps k (snd (reset demo ''00'')))) = Inr True"
  proof (intro allI impI)
    fix k :: nat
    assume "k \<le> nat 2"
    then have "k = 0 \<or> k = 1 \<or> k = 2"
      by auto
    then show "fst (step (steps k (snd (reset demo ''00'')))) = Inr True"
      using k0 k1 k2 by blast
  qed
  show ?thesis
    using max_steps_enforcement [OF h1 h2 h3] h2 k0 k1 k2 by simp
qed

text \<open>
  C3 (absent-transition rejection). On an initialized machine, that is one left by a
  successful \<open>reset\<close> followed by any number \<open>k\<close> of calls of \<open>step\<close>, if the current state
  is not an accept state and the table has no entry for the current state and the symbol
  under the head, then \<open>step\<close> returns \<open>False\<close> and leaves the whole machine as it was:
  current state, tape (the \<open>defaultdict\<close> included, the cell under the head being stored
  already), step counter and history.
\<close>

theorem absent_transition_rejection:
  assumes "reset m0 s = (Inr (), m1)" and "m = steps k m1"
    and "tape m = Some t"
    and "current_state m \<notin> accept_states m"
    and "get_transition (transition_function m) (current_state m)
           (symbol_at t (head_position t)) = None"
  shows "step m = (Inr False, m)"
proof -
  have "head_stored m"
    using assms(1,2) by (simp add: head_stored_reset head_stored_steps)
  then have "snd (read t) = t"
    using assms(3) by (simp add: head_stored_def read_stored)
  then show ?thesis
    using assms(3,4,5) by (simp add: step_unfold)
qed

theorem absent_transition_rejection_witness:
  "reset demo ''01'' = (Inr (), snd (reset demo ''01''))
   \<and> tape (steps 1 (snd (reset demo ''01''))) \<noteq> None
   \<and> current_state (steps 1 (snd (reset demo ''01'')))
       \<notin> accept_states (steps 1 (snd (reset demo ''01'')))
   \<and> fst (read (the (tape (steps 1 (snd (reset demo ''01'')))))) = ''1''
   \<and> get_transition (transition_function (steps 1 (snd (reset demo ''01''))))
        (current_state (steps 1 (snd (reset demo ''01'')))) ''1'' = None
   \<and> step (steps 1 (snd (reset demo ''01''))) = (Inr False, steps 1 (snd (reset demo ''01'')))"
proof -
  obtain t where h3: "tape (steps 1 (snd (reset demo ''01''))) = Some t"
    by (simp add: run_eval tape_eval demo_eval)
  have h1: "reset demo ''01'' = (Inr (), snd (reset demo ''01''))"
    by (simp add: reset_success demo_def)
  have h4: "current_state (steps 1 (snd (reset demo ''01'')))
       \<notin> accept_states (steps 1 (snd (reset demo ''01'')))"
    by (simp add: run_eval tape_eval demo_eval)
  have sym: "symbol_at t (head_position t) = ''1''"
    using h3 by (auto simp: run_eval tape_eval demo_eval)
  have tr: "get_transition (transition_function (steps 1 (snd (reset demo ''01''))))
        (current_state (steps 1 (snd (reset demo ''01'')))) ''1'' = None"
    by (simp add: run_eval tape_eval demo_eval)
  have h5: "get_transition (transition_function (steps 1 (snd (reset demo ''01''))))
        (current_state (steps 1 (snd (reset demo ''01'')))) (symbol_at t (head_position t)) = None"
    using tr sym by simp
  show ?thesis
    using absent_transition_rejection [OF h1 refl h3 h4 h5] h1 h3 h4 sym tr
    by (simp add: read_fst)
qed

text \<open>
  C4 (reset: error and atomicity). \<open>reset(input_string)\<close> raises if and only if some
  character of the input string is not in the input alphabet. When it raises, the exception
  is the \<open>ValueError\<close> for such a character (\<open>InvalidSymbol\<close>), and the machine is left
  exactly as it was: no tape is built, and current state, tape, step counter and history are
  the previous ones. The witness resets a machine in the middle of a run.
\<close>

theorem reset_invalid_symbol:
  "(isl (fst (reset m s)) \<longleftrightarrow> (\<exists>c\<in>set s. [c] \<notin> input_alphabet m))
   \<and> (isl (fst (reset m s)) \<longrightarrow>
        (\<exists>c\<in>set s. [c] \<notin> input_alphabet m \<and> reset m s = (Inl (InvalidSymbol [c]), m)))"
proof (cases "check_input (input_alphabet m) s")
  case None
  then have "\<not> isl (fst (reset m s))"
    by (simp add: reset_success)
  with None show ?thesis
    by (simp add: check_input_None)
next
  case (Some x)
  then obtain c where c: "c \<in> set s" "x = [c]" "[c] \<notin> input_alphabet m"
    using check_input_Some by blast
  have "reset m s = (Inl (InvalidSymbol [c]), m)"
    using Some c(2) by (simp add: reset_failure)
  with c show ?thesis
    by auto
qed

theorem reset_invalid_symbol_witness:
  "isl (fst (reset (snd (step (snd (reset demo ''0'')))) ''02''))
   \<and> reset (snd (step (snd (reset demo ''0'')))) ''02''
       = (Inl (InvalidSymbol ''2''), snd (step (snd (reset demo ''0''))))
   \<and> step_count (snd (reset (snd (step (snd (reset demo ''0'')))) ''02'')) = 1
   \<and> \<not> isl (fst (reset (snd (step (snd (reset demo ''0'')))) ''0''))"
proof -
  have a: "input_alphabet (snd (step (snd (reset demo ''0'')))) = {''0'', ''1''}"
    by (simp add: run_eval tape_eval demo_eval)
  have c: "step_count (snd (step (snd (reset demo ''0'')))) = 1"
    by (simp add: run_eval tape_eval demo_eval)
  have bad: "\<exists>c\<in>set ''02''. [c] \<notin> input_alphabet (snd (step (snd (reset demo ''0''))))"
    by (simp add: a)
  have good: "\<not> (\<exists>c\<in>set ''0''. [c] \<notin> input_alphabet (snd (step (snd (reset demo ''0'')))))"
    by (simp add: a)
  have f: "isl (fst (reset (snd (step (snd (reset demo ''0'')))) ''02''))"
    using reset_invalid_symbol [of "snd (step (snd (reset demo ''0'')))" "''02''"] bad by blast
  then obtain x where "x \<in> set ''02''" "[x] \<notin> input_alphabet (snd (step (snd (reset demo ''0''))))"
    "reset (snd (step (snd (reset demo ''0'')))) ''02''
       = (Inl (InvalidSymbol [x]), snd (step (snd (reset demo ''0''))))"
    using reset_invalid_symbol [of "snd (step (snd (reset demo ''0'')))" "''02''"] by blast
  moreover from this have "x = CHR ''2''"
    by (auto simp: a)
  moreover have "\<not> isl (fst (reset (snd (step (snd (reset demo ''0'')))) ''0''))"
    using reset_invalid_symbol [of "snd (step (snd (reset demo ''0'')))" "''0''"] good by blast
  ultimately show ?thesis
    using f c by simp
qed

text \<open>
  C5 (reset: success). When every character of the input string is in the input alphabet,
  \<open>reset\<close> returns normally. The machine then has a new tape that reads \<open>input_string[i]\<close>
  at every position \<open>0 \<le> i < len(input_string)\<close> and the blank symbol everywhere else,
  with the head at 0, \<open>leftmost = 0\<close> and \<open>rightmost = max(0, len - 1)\<close>; the current state
  is the initial state, the step counter is 0, and the history is the single entry of the
  initial configuration: initial state, head position 0 and the rendering of that tape. The
  fields of the definition are untouched.
\<close>

theorem reset_success_postcondition:
  assumes "\<forall>c\<in>set s. [c] \<in> input_alphabet m"
  shows "\<exists>m' t'.
      reset m s = (Inr (), m')
      \<and> m' = m\<lparr>tape := Some t', current_state := initial_state m, step_count := 0,
               execution_history := [(initial_state m, 0, fst (get_tape_string t' 10))]\<rparr>
      \<and> (\<forall>i. symbol_at t' i
             = (if 0 \<le> i \<and> i < int (length s) then [s ! nat i] else blank_symbol m))
      \<and> blank t' = blank_symbol m
      \<and> head_position t' = 0
      \<and> leftmost t' = 0
      \<and> rightmost t' = max 0 (int (length s) - 1)
      \<and> current_state m' = initial_state m
      \<and> step_count m' = 0
      \<and> length (execution_history m') = 1"
proof -
  let ?t = "snd (get_tape_string (Tape_init s (blank_symbol m)) 10)"
  let ?m = "m\<lparr>tape := Some ?t, current_state := initial_state m, step_count := 0,
               execution_history := [(initial_state m, 0, fst (get_tape_string ?t 10))]\<rparr>"
  have "check_input (input_alphabet m) s = None"
    using assms by (simp add: check_input_None)
  then have "reset m s = (Inr (), ?m)"
    by (simp add: reset_success get_tape_string_again)
  moreover have "\<forall>i. symbol_at ?t i
             = (if 0 \<le> i \<and> i < int (length s) then [s ! nat i] else blank_symbol m)"
    by (simp add: tape_eval)
  moreover have "blank ?t = blank_symbol m" "head_position ?t = 0" "leftmost ?t = 0"
    "rightmost ?t = max 0 (int (length s) - 1)"
    by (simp_all add: tape_eval)
  ultimately show ?thesis
    by (intro exI [of _ ?m] exI [of _ ?t]) simp
qed

theorem reset_success_postcondition_witness:
  "fst (reset demo ''01'') = Inr ()
   \<and> symbol_at (the (tape (snd (reset demo ''01'')))) (- 1) = ''_''
   \<and> symbol_at (the (tape (snd (reset demo ''01'')))) 0 = ''0''
   \<and> symbol_at (the (tape (snd (reset demo ''01'')))) 1 = ''1''
   \<and> symbol_at (the (tape (snd (reset demo ''01'')))) 2 = ''_''
   \<and> head_position (the (tape (snd (reset demo ''01'')))) = 0
   \<and> leftmost (the (tape (snd (reset demo ''01'')))) = 0
   \<and> rightmost (the (tape (snd (reset demo ''01'')))) = 1
   \<and> current_state (snd (reset demo ''01'')) = ''q0''
   \<and> step_count (snd (reset demo ''01'')) = 0
   \<and> length (execution_history (snd (reset demo ''01''))) = 1"
proof -
  have h: "\<forall>c\<in>set ''01''. [c] \<in> input_alphabet demo"
    by (simp add: demo_def)
  obtain m' t' where r: "reset demo ''01'' = (Inr (), m')"
    and m': "m' = demo\<lparr>tape := Some t', current_state := initial_state demo, step_count := 0,
               execution_history := [(initial_state demo, 0, fst (get_tape_string t' 10))]\<rparr>"
    and sym: "\<forall>i. symbol_at t' i
             = (if 0 \<le> i \<and> i < int (length ''01'') then [''01'' ! nat i] else blank_symbol demo)"
    and fr: "head_position t' = 0" "leftmost t' = 0" "rightmost t' = max 0 (int (length ''01'') - 1)"
    using reset_success_postcondition [OF h] by blast
  have "symbol_at t' (- 1) = ''_''" "symbol_at t' 0 = ''0''" "symbol_at t' 1 = ''1''"
    "symbol_at t' 2 = ''_''"
    by (simp_all add: sym demo_def)
  then show ?thesis
    using r m' fr by (simp add: demo_def)
qed

text \<open>
  C6 (successful step). On a machine that has a tape and whose current state is not an
  accept state, let the table hold \<open>(q, w, d)\<close> for the current state and the symbol under
  the head, \<open>d\<close> being one of the two directions \<open>L\<close> and \<open>R\<close> (the only ones
  \<open>add_transition\<close> stores). Then \<open>step\<close> returns \<open>True\<close>; the tape reads \<open>w\<close> at the
  position the head was at and is as before everywhere else; the head is one cell further
  to the right for \<open>R\<close> and to the left for \<open>L\<close>; the current state is \<open>q\<close>; the step
  counter is one more; the history is the previous one with exactly one entry appended, the
  new state, the new head position and the rendering of the new tape. The fields of the
  definition are untouched.
\<close>

theorem step_success_postcondition:
  assumes "tape m = Some t"
    and "current_state m \<notin> accept_states m"
    and "get_transition (transition_function m) (current_state m)
           (symbol_at t (head_position t)) = Some (q, w, d)"
    and "d = ''L'' \<or> d = ''R''"
  shows "\<exists>m' t'.
      step m = (Inr True, m')
      \<and> m' = m\<lparr>tape := Some t', current_state := q, step_count := step_count m + 1,
               execution_history :=
                 execution_history m @ [(q, head_position t', fst (get_tape_string t' 10))]\<rparr>
      \<and> (\<forall>i. symbol_at t' i = (if i = head_position t then w else symbol_at t i))
      \<and> head_position t' = (if d = ''R'' then head_position t + 1 else head_position t - 1)
      \<and> current_state m' = q
      \<and> step_count m' = step_count m + 1
      \<and> length (execution_history m') = length (execution_history m) + 1"
proof -
  let ?t2 = "snd (move (write_tape (snd (read t)) w) d)"
  let ?t = "snd (get_tape_string ?t2 10)"
  let ?m = "m\<lparr>tape := Some ?t, current_state := q, step_count := step_count m + 1,
               execution_history :=
                 execution_history m @ [(q, head_position ?t, fst (get_tape_string ?t 10))]\<rparr>"
  have "step m = (Inr True, ?m)"
    using assms by (simp add: step_unfold get_tape_string_again get_tape_string_frame)
  moreover have "\<forall>i. symbol_at ?t i = (if i = head_position t then w else symbol_at t i)"
    by (simp add: tape_eval)
  moreover have "head_position ?t = (if d = ''R'' then head_position t + 1 else head_position t - 1)"
    using assms(4) by (auto simp: tape_eval)
  ultimately show ?thesis
    by (intro exI [of _ ?m] exI [of _ ?t]) simp
qed

theorem step_success_postcondition_witness:
  "tape (snd (reset demo ''01'')) \<noteq> None
   \<and> current_state (snd (reset demo ''01'')) \<notin> accept_states (snd (reset demo ''01''))
   \<and> get_transition (transition_function (snd (reset demo ''01'')))
        (current_state (snd (reset demo ''01'')))
        (fst (read (the (tape (snd (reset demo ''01''))))))
        = Some (''q0'', ''X'', ''R'')
   \<and> fst (step (snd (reset demo ''01''))) = Inr True
   \<and> symbol_at (the (tape (snd (step (snd (reset demo ''01'')))))) 0 = ''X''
   \<and> symbol_at (the (tape (snd (step (snd (reset demo ''01'')))))) 1 = ''1''
   \<and> head_position (the (tape (snd (step (snd (reset demo ''01'')))))) = 1
   \<and> current_state (snd (step (snd (reset demo ''01'')))) = ''q0''
   \<and> step_count (snd (step (snd (reset demo ''01'')))) = 1
   \<and> length (execution_history (snd (step (snd (reset demo ''01''))))) = 2"
proof -
  obtain t where h1: "tape (snd (reset demo ''01'')) = Some t"
    by (simp add: run_eval demo_eval)
  have h2: "current_state (snd (reset demo ''01'')) \<notin> accept_states (snd (reset demo ''01''))"
    by (simp add: run_eval demo_eval)
  have hd: "head_position t = 0"
    using h1 by (auto simp: run_eval tape_eval demo_eval)
  have s0: "symbol_at t 0 = ''0''" and s1: "symbol_at t 1 = ''1''"
    using h1 by (auto simp: run_eval tape_eval demo_eval)
  have h3: "get_transition (transition_function (snd (reset demo ''01'')))
        (current_state (snd (reset demo ''01''))) (symbol_at t (head_position t))
        = Some (''q0'', ''X'', ''R'')"
    by (simp add: hd s0) (simp add: run_eval demo_eval)
  have h4: "''R'' = ''L'' \<or> ''R'' = ''R''"
    by simp
  have c0: "step_count (snd (reset demo ''01'')) = 0"
    and l0: "length (execution_history (snd (reset demo ''01''))) = 1"
    by (simp_all add: run_eval demo_eval)
  obtain m' t' where st: "step (snd (reset demo ''01'')) = (Inr True, m')"
    and m': "m' = (snd (reset demo ''01''))\<lparr>tape := Some t', current_state := ''q0'',
               step_count := step_count (snd (reset demo ''01'')) + 1,
               execution_history :=
                 execution_history (snd (reset demo ''01''))
                   @ [(''q0'', head_position t', fst (get_tape_string t' 10))]\<rparr>"
    and sym: "\<forall>i. symbol_at t' i = (if i = head_position t then ''X'' else symbol_at t i)"
    and hp: "head_position t' = (if ''R'' = ''R'' then head_position t + 1 else head_position t - 1)"
    using step_success_postcondition [OF h1 h2 h3 h4] by blast
  have "symbol_at t' 0 = ''X''" "symbol_at t' 1 = ''1''" "head_position t' = 1"
    using sym hp hd s0 s1 by simp_all
  then show ?thesis
    using st m' h1 h2 h3 hd c0 l0 by (simp add: read_fst)
qed

text \<open>
  C7 (construction). The constructor raises if and only if the initial state is not in the
  states, or the accept states are not a subset of the states, or the input alphabet is
  not a subset of the tape alphabet, or the blank symbol is not in the tape alphabet, and
  what it raises is then the \<open>ValueError\<close> of one of these four checks
  (\<open>InvalidDefinition\<close>). When none of them fails, the machine is built with the seven
  fields of the definition as given, the current state being the initial state, no tape,
  step counter 0 and an empty history.
\<close>

theorem construction_validation:
  "((\<exists>c. TuringMachine_init Q S G tf q0 b F = Inl (InvalidDefinition c))
      \<longleftrightarrow> (q0 \<notin> Q \<or> \<not> F \<subseteq> Q \<or> \<not> S \<subseteq> G \<or> b \<notin> G))
   \<and> (isl (TuringMachine_init Q S G tf q0 b F)
      \<longleftrightarrow> (q0 \<notin> Q \<or> \<not> F \<subseteq> Q \<or> \<not> S \<subseteq> G \<or> b \<notin> G))
   \<and> (q0 \<in> Q \<and> F \<subseteq> Q \<and> S \<subseteq> G \<and> b \<in> G \<longrightarrow>
        TuringMachine_init Q S G tf q0 b F =
          Inr \<lparr> states = Q, input_alphabet = S, tape_alphabet = G, transition_function = tf,
                initial_state = q0, blank_symbol = b, accept_states = F,
                current_state = q0, tape = None, step_count = 0, execution_history = [] \<rparr>)"
  by (simp add: TuringMachine_init_def)

theorem construction_validation_witness:
  "TuringMachine_init {''q0'', ''qa''} {''0'', ''1''} {''0'', ''1'', ''X'', ''_''}
     demo_transitions ''q0'' ''_'' {''qa''} = Inr demo
   \<and> isl (TuringMachine_init {''q0'', ''qa''} {''0'', ''1''} {''0'', ''1'', ''X'', ''_''}
     demo_transitions ''q0'' ''B'' {''qa''})
   \<and> isl (TuringMachine_init {''q0'', ''qa''} {''0'', ''1''} {''0'', ''1'', ''X'', ''_''}
     demo_transitions ''q1'' ''_'' {''qa''})
   \<and> isl (TuringMachine_init {''q0'', ''qa''} {''0'', ''1''} {''0'', ''1'', ''X'', ''_''}
     demo_transitions ''q0'' ''_'' {''qa'', ''qb''})
   \<and> isl (TuringMachine_init {''q0'', ''qa''} {''0'', ''1'', ''2''} {''0'', ''1'', ''X'', ''_''}
     demo_transitions ''q0'' ''_'' {''qa''})"
proof -
  have ok: "''q0'' \<in> {''q0'', ''qa''} \<and> {''qa''} \<subseteq> {''q0'', ''qa''}
      \<and> {''0'', ''1''} \<subseteq> {''0'', ''1'', ''X'', ''_''} \<and> ''_'' \<in> {''0'', ''1'', ''X'', ''_''}"
    by simp
  have 1: "''q0'' \<notin> {''q0'', ''qa''} \<or> \<not> {''qa''} \<subseteq> {''q0'', ''qa''}
      \<or> \<not> {''0'', ''1''} \<subseteq> {''0'', ''1'', ''X'', ''_''} \<or> ''B'' \<notin> {''0'', ''1'', ''X'', ''_''}"
    by simp
  have 2: "''q1'' \<notin> {''q0'', ''qa''} \<or> \<not> {''qa''} \<subseteq> {''q0'', ''qa''}
      \<or> \<not> {''0'', ''1''} \<subseteq> {''0'', ''1'', ''X'', ''_''} \<or> ''_'' \<notin> {''0'', ''1'', ''X'', ''_''}"
    by simp
  have 3: "''q0'' \<notin> {''q0'', ''qa''} \<or> \<not> {''qa'', ''qb''} \<subseteq> {''q0'', ''qa''}
      \<or> \<not> {''0'', ''1''} \<subseteq> {''0'', ''1'', ''X'', ''_''} \<or> ''_'' \<notin> {''0'', ''1'', ''X'', ''_''}"
    by simp
  have 4: "''q0'' \<notin> {''q0'', ''qa''} \<or> \<not> {''qa''} \<subseteq> {''q0'', ''qa''}
      \<or> \<not> {''0'', ''1'', ''2''} \<subseteq> {''0'', ''1'', ''X'', ''_''} \<or> ''_'' \<notin> {''0'', ''1'', ''X'', ''_''}"
    by simp
  have "TuringMachine_init {''q0'', ''qa''} {''0'', ''1''} {''0'', ''1'', ''X'', ''_''}
     demo_transitions ''q0'' ''_'' {''qa''} = Inr demo"
    using construction_validation [of "{''q0'', ''qa''}" "{''0'', ''1''}"
        "{''0'', ''1'', ''X'', ''_''}" demo_transitions "''q0''" "''_''" "{''qa''}"] ok
    unfolding demo_def by blast
  moreover have "isl (TuringMachine_init {''q0'', ''qa''} {''0'', ''1''}
     {''0'', ''1'', ''X'', ''_''} demo_transitions ''q0'' ''B'' {''qa''})"
    using construction_validation [of "{''q0'', ''qa''}" "{''0'', ''1''}"
        "{''0'', ''1'', ''X'', ''_''}" demo_transitions "''q0''" "''B''" "{''qa''}"] 1
    by blast
  moreover have "isl (TuringMachine_init {''q0'', ''qa''} {''0'', ''1''}
     {''0'', ''1'', ''X'', ''_''} demo_transitions ''q1'' ''_'' {''qa''})"
    using construction_validation [of "{''q0'', ''qa''}" "{''0'', ''1''}"
        "{''0'', ''1'', ''X'', ''_''}" demo_transitions "''q1''" "''_''" "{''qa''}"] 2
    by blast
  moreover have "isl (TuringMachine_init {''q0'', ''qa''} {''0'', ''1''}
     {''0'', ''1'', ''X'', ''_''} demo_transitions ''q0'' ''_'' {''qa'', ''qb''})"
    using construction_validation [of "{''q0'', ''qa''}" "{''0'', ''1''}"
        "{''0'', ''1'', ''X'', ''_''}" demo_transitions "''q0''" "''_''" "{''qa'', ''qb''}"] 3
    by blast
  moreover have "isl (TuringMachine_init {''q0'', ''qa''} {''0'', ''1'', ''2''}
     {''0'', ''1'', ''X'', ''_''} demo_transitions ''q0'' ''_'' {''qa''})"
    using construction_validation [of "{''q0'', ''qa''}" "{''0'', ''1'', ''2''}"
        "{''0'', ''1'', ''X'', ''_''}" demo_transitions "''q0''" "''_''" "{''qa''}"] 4
    by blast
  ultimately show ?thesis
    by blast
qed

text \<open>
  C8 (not-initialized guard), as stated: on a machine just constructed, \<open>step\<close> raises
  \<open>NotInitialized\<close>, and so does the query of the classification. The second half fails:
  \<open>get_result\<close> has no such guard. On \<open>demo\<close>, which is what the constructor returns and has
  no tape, it returns \<open>Rechaza\<close>.
\<close>

theorem query_before_reset_counterexample:
  "TuringMachine_init {''q0'', ''qa''} {''0'', ''1''} {''0'', ''1'', ''X'', ''_''}
     demo_transitions ''q0'' ''_'' {''qa''} = Inr demo
   \<and> tape demo = None
   \<and> get_result demo = Inr ''Rechaza''
   \<and> get_result demo \<noteq> Inl NotInitialized"
  by (simp add: TuringMachine_init_def demo_def get_result_def)

text \<open>
  C8, amended. On a machine just constructed, \<open>step\<close> raises the \<open>RuntimeError\<close>
  (\<open>NotInitialized\<close>) and leaves the machine as it was. \<open>get_result\<close> raises nothing there:
  it reads the current state, which the constructor has set to the initial state, and
  returns \<open>Acepta\<close> if the initial state is an accept state and \<open>Rechaza\<close> otherwise.
\<close>

theorem not_initialized_guard:
  assumes "TuringMachine_init Q S G tf q0 b F = Inr m"
  shows "step m = (Inl NotInitialized, m)
     \<and> get_result m = Inr (if q0 \<in> F then ''Acepta'' else ''Rechaza'')"
proof -
  have "tape m = None" and "current_state m = q0" and "accept_states m = F"
    using assms by (auto simp: TuringMachine_init_def split: if_splits)
  then show ?thesis
    by (simp add: step_def get_result_def)
qed

theorem not_initialized_guard_witness:
  "TuringMachine_init {''q0'', ''qa''} {''0'', ''1''} {''0'', ''1'', ''X'', ''_''}
     demo_transitions ''q0'' ''_'' {''qa''} = Inr demo
   \<and> step demo = (Inl NotInitialized, demo)
   \<and> get_result demo = Inr ''Rechaza''"
proof -
  have h: "TuringMachine_init {''q0'', ''qa''} {''0'', ''1''} {''0'', ''1'', ''X'', ''_''}
     demo_transitions ''q0'' ''_'' {''qa''} = Inr demo"
    by (simp add: TuringMachine_init_def demo_def)
  show ?thesis
    using not_initialized_guard [OF h] h by simp
qed

text \<open>
  C9 (history length). After a successful \<open>reset\<close> and any number \<open>k\<close> of calls of
  \<open>step\<close>, whatever they returned, the history has one entry more than the step counter
  says. Within the run the history only grows at its end: the history after \<open>j\<close> calls is
  a prefix of the history after \<open>j + k\<close> calls.
\<close>

theorem history_length_invariant:
  assumes "reset m0 s = (Inr (), m)"
  shows "int (length (execution_history (steps k m))) = step_count (steps k m) + 1
     \<and> prefix (execution_history (steps j m)) (execution_history (steps (j + k) m))"
proof -
  have "step_count m = 0" and "length (execution_history m) = 1"
    using assms reset_success [OF reset_Inr [OF assms]] by auto
  moreover obtain es where "execution_history (steps k m) = execution_history m @ es"
    and "int (length es) = step_count (steps k m) - step_count m"
    using steps_history [of k m] by blast
  ultimately have "int (length (execution_history (steps k m))) = step_count (steps k m) + 1"
    by simp
  moreover obtain es' where
    "execution_history (steps k (steps j m)) = execution_history (steps j m) @ es'"
    using steps_history [of k "steps j m"] by blast
  then have "prefix (execution_history (steps j m)) (execution_history (steps (j + k) m))"
    by (simp add: steps_add)
  ultimately show ?thesis
    by simp
qed

theorem history_length_invariant_witness:
  "reset demo ''0'' = (Inr (), snd (reset demo ''0''))
   \<and> step_count (steps 3 (snd (reset demo ''0''))) = 2
   \<and> length (execution_history (steps 3 (snd (reset demo ''0'')))) = 3
   \<and> prefix (execution_history (steps 1 (snd (reset demo ''0''))))
        (execution_history (steps (1 + 3) (snd (reset demo ''0''))))"
proof -
  have h: "reset demo ''0'' = (Inr (), snd (reset demo ''0''))"
    by (simp add: reset_success demo_def)
  have c: "step_count (steps 3 (snd (reset demo ''0''))) = 2"
    by (simp add: run_eval tape_eval demo_eval)
  show ?thesis
    using history_length_invariant [OF h, of 3 1] h c by simp
qed

text \<open>
  C10 (tape bounds). \<open>leftmost \<le> head_position \<le> rightmost\<close> holds for a tape as
  constructed, for any tape after \<open>write\<close> and for any tape after a \<open>move\<close> that returned;
  \<open>read\<close> and \<open>get_tape_string\<close> keep it. For a direction other than \<open>L\<close> and \<open>R\<close>,
  \<open>move\<close> raises the \<open>ValueError\<close> (\<open>InvalidDirection\<close>) and leaves the tape as it was.
\<close>

theorem tape_bounds_invariant:
  "bounds_ok (Tape_init input_string b)
   \<and> bounds_ok (write_tape t symbol)
   \<and> (move t d = (Inr (), t') \<longrightarrow> bounds_ok t')
   \<and> (d' \<noteq> ''L'' \<and> d' \<noteq> ''R'' \<longrightarrow> move t d' = (Inl (InvalidDirection d'), t))
   \<and> (bounds_ok t \<longrightarrow> bounds_ok (snd (read t)) \<and> bounds_ok (snd (get_tape_string t c)))"
proof -
  have "bounds_ok (Tape_init input_string b)"
    by (simp add: bounds_ok_def Tape_init_frame)
  moreover have "bounds_ok (write_tape t symbol)"
    by (simp add: bounds_ok_def write_tape_frame)
  moreover have "bounds_ok t'" if "move t d = (Inr (), t')"
  proof -
    have "fst (move t d) = Inr ()" and "t' = snd (move t d)"
      using that by simp_all
    then show ?thesis
      by (auto simp: bounds_ok_def move_fst move_frame split: if_splits)
  qed
  moreover have "move t d' = (Inl (InvalidDirection d'), t)" if "d' \<noteq> ''L'' \<and> d' \<noteq> ''R''"
    using that by (simp add: move_invalid)
  moreover have "bounds_ok (snd (read t)) \<and> bounds_ok (snd (get_tape_string t c))"
    if "bounds_ok t"
    using that by (simp add: bounds_ok_def read_frame get_tape_string_frame)
  ultimately show ?thesis
    by blast
qed

theorem tape_bounds_invariant_witness:
  "bounds_ok (Tape_init ''01'' ''_'')
   \<and> bounds_ok (snd (move (Tape_init ''01'' ''_'') ''L''))
   \<and> bounds_ok (write_tape (snd (move (Tape_init ''01'' ''_'') ''L'')) ''X'')
   \<and> fst (move (snd (move (Tape_init ''01'' ''_'') ''L'')) ''L'') = Inr ()
   \<and> head_position (snd (move (snd (move (Tape_init ''01'' ''_'') ''L'')) ''L'')) = - 2
   \<and> bounds_ok (snd (move (snd (move (Tape_init ''01'' ''_'') ''L'')) ''L''))
   \<and> move (snd (move (Tape_init ''01'' ''_'') ''L'')) ''X''
       = (Inl (InvalidDirection ''X''), snd (move (Tape_init ''01'' ''_'') ''L''))
   \<and> bounds_ok (snd (read (snd (move (Tape_init ''01'' ''_'') ''L''))))
   \<and> bounds_ok (snd (get_tape_string (snd (move (Tape_init ''01'' ''_'') ''L'')) 10))"
proof -
  have h1: "move (snd (move (Tape_init ''01'' ''_'') ''L'')) ''L''
      = (Inr (), snd (move (snd (move (Tape_init ''01'' ''_'') ''L'')) ''L''))"
    by (simp add: prod_eq_iff move_fst)
  have h2: "''X'' \<noteq> ''L'' \<and> ''X'' \<noteq> ''R''"
    by simp
  have h3: "bounds_ok (snd (move (Tape_init ''01'' ''_'') ''L''))"
    by (simp add: bounds_ok_def tape_eval)
  have hp: "head_position (snd (move (snd (move (Tape_init ''01'' ''_'') ''L'')) ''L'')) = - 2"
    by (simp add: tape_eval)
  show ?thesis
    using tape_bounds_invariant [of "''01''" "''_''"
        "snd (move (Tape_init ''01'' ''_'') ''L'')" "''X''" "''L''"
        "snd (move (snd (move (Tape_init ''01'' ''_'') ''L'')) ''L'')" "''X''" 10]
      h1 h2 h3 hp
    by (simp add: move_fst)
qed


end
